theory Spec2Isabelle
  imports
    Main
    "HOL-Library.Word"
    "HOL-Library.Char_ord"
    "HOL-Library.List_Lexorder"
    "HOL-Library.Multiset"
begin

unbundle bit_operations_syntax

section \<open>Ticket ledger: a shallow embedding of \<^verbatim>\<open>28chain.py\<close>\<close>

text \<open>
  The program keeps a hash-linked list of blocks, a buffer of pending transactions and a
  registry of tickets. Its classes \<^verbatim>\<open>Transaction\<close>, \<^verbatim>\<open>Block\<close> and \<^verbatim>\<open>Blockchain\<close> become
  records, its methods and Flask routes become functions that take the state and return
  the new one.

  What the program takes from outside is an argument of the model:
  \<^item> \<^verbatim>\<open>time.time()\<close>: the value read is the argument \<open>now\<close>; floats are an abstract
    type \<open>'f\<close>, printed by the argument \<open>float_repr\<close> (Python's \<^verbatim>\<open>float.__repr__\<close>);
  \<^item> \<^verbatim>\<open>hashlib.sha256\<close>: the argument \<open>sha256\<close>, from the encoded text to a 256-bit digest;
  \<^item> \<^verbatim>\<open>uuid.uuid4()\<close>: the identifier drawn is the argument \<open>ticket_id\<close> of \<open>issue_ticket\<close>;
  \<^item> \<^verbatim>\<open>request.get_json()\<close>: the fields the route reads are its arguments, a field read
    with \<^verbatim>\<open>data.get\<close> being \<open>JNull\<close> when absent; ticket identifiers are strings.
  Strings are lists of characters with code points below 256. Every theorem below holds
  for all \<open>float_repr\<close> and \<open>sha256\<close>, so for Python's.
\<close>

subsection \<open>JSON values and \<^verbatim>\<open>json.dumps(..., sort_keys=True)\<close>\<close>

datatype 'f json =
    JNull
  | JBool bool
  | JInt int
  | JFloat 'f
  | JStr string
  | JList "'f json list"
  | JObj "(string \<times> 'f json) list"

definition hex_digit :: "nat \<Rightarrow> char" where
  "hex_digit n = ''0123456789abcdef'' ! (n mod 16)"

text \<open>
  Python's \<^verbatim>\<open>int.__repr__\<close>: decimal digits (the first ten of \<open>hex_digit\<close>), with a
  minus sign for a negative number.
\<close>

function str_nat :: "nat \<Rightarrow> string" where
  "str_nat n = (if n < 10 then [hex_digit n] else str_nat (n div 10) @ [hex_digit (n mod 10)])"
  by pat_completeness auto
termination
  by (relation "measure id") auto

declare str_nat.simps [simp del]

definition str_int :: "int \<Rightarrow> string" where
  "str_int i = (if i < 0 then CHR ''-'' # str_nat (nat (- i)) else str_nat (nat i))"

text \<open>
  \<^verbatim>\<open>py_encode_basestring_ascii\<close>: the quote, the backslash and the control characters with
  a short form are escaped by a backslash, every other character outside
  \<^verbatim>\<open>' '..'~'\<close> as \<^verbatim>\<open>\u00xx\<close>.
\<close>

definition escape_char :: "char \<Rightarrow> string" where
  "escape_char c =
     (if c = CHR 0x22 then [CHR 0x5C, CHR 0x22]
      else if c = CHR 0x5C then [CHR 0x5C, CHR 0x5C]
      else if c = CHR 0x0A then [CHR 0x5C, CHR ''n'']
      else if c = CHR 0x0D then [CHR 0x5C, CHR ''r'']
      else if c = CHR 0x09 then [CHR 0x5C, CHR ''t'']
      else if c = CHR 0x08 then [CHR 0x5C, CHR ''b'']
      else if c = CHR 0x0C then [CHR 0x5C, CHR ''f'']
      else if c < CHR 0x20 \<or> CHR 0x7E < c
        then [CHR 0x5C, CHR ''u'', CHR ''0'', CHR ''0'',
              hex_digit (of_char c div 16), hex_digit (of_char c mod 16)]
      else [c])"

definition encode_basestring_ascii :: "string \<Rightarrow> string" where
  "encode_basestring_ascii s = [CHR 0x22] @ concat (map escape_char s) @ [CHR 0x22]"

fun join :: "string \<Rightarrow> string list \<Rightarrow> string" where
  "join sep [] = []"
| "join sep [x] = x"
| "join sep (x # y # ys) = x @ sep @ join sep (y # ys)"

text \<open>
  A Python dict is the list of its items in insertion order, its keys distinct. With
  \<^verbatim>\<open>sort_keys=True\<close> the items are written in the order of their keys.
\<close>

function json_dumps :: "('f \<Rightarrow> string) \<Rightarrow> 'f json \<Rightarrow> string" where
  "json_dumps float_repr JNull = ''null''"
| "json_dumps float_repr (JBool b) = (if b then ''true'' else ''false'')"
| "json_dumps float_repr (JInt i) = str_int i"
| "json_dumps float_repr (JFloat x) = float_repr x"
| "json_dumps float_repr (JStr s) = encode_basestring_ascii s"
| "json_dumps float_repr (JList xs) =
     ''['' @ join '', '' (map (json_dumps float_repr) xs) @ '']''"
| "json_dumps float_repr (JObj items) =
     ''{'' @ join '', ''
        (map (\<lambda>kv. encode_basestring_ascii (fst kv) @ '': '' @ json_dumps float_repr (snd kv))
             (sort_key fst items)) @ ''}''"
  by pat_completeness auto

lemma size_json_item: "(k, v) \<in> set items \<Longrightarrow> size v < Suc (size_list (size_prod (\<lambda>_. 0) size) items)"
  by (induction items) auto

termination json_dumps
proof (relation "measure (\<lambda>(_, j). size j)", goal_cases)
  case 1
  show ?case by simp
next
  case (2 float_repr xs x)
  then show ?case by (induction xs) auto
next
  case (3 float_repr items kv)
  then have "(fst kv, snd kv) \<in> set items" by simp
  from size_json_item [OF this] show ?case by simp
qed

subsection \<open>\<^verbatim>\<open>hexdigest()\<close>\<close>

text \<open>The 64 hexadecimal digits of the digest, lowercase, most significant first.\<close>

definition hexdigest :: "256 word \<Rightarrow> string" where
  "hexdigest w = map (\<lambda>i. hex_digit (unat (drop_bit (4 * i) w AND 15))) (rev [0..<64])"

definition startswith :: "string \<Rightarrow> string \<Rightarrow> bool" where
  "startswith s p = (take (length p) s = p)"

subsection \<open>\<^verbatim>\<open>class Transaction\<close>\<close>

record 'f transaction =
  tx_type :: string
  data :: "(string \<times> 'f json) list"
  sender_pubkey :: "'f json"
  signature :: "'f json"
  timestamp :: 'f

text \<open>\<^verbatim>\<open>Transaction.__init__\<close>; \<open>now\<close> is what \<^verbatim>\<open>time.time()\<close> returned.\<close>

definition Transaction ::
  "string \<Rightarrow> (string \<times> 'f json) list \<Rightarrow> 'f json \<Rightarrow> 'f json \<Rightarrow> 'f \<Rightarrow> 'f transaction" where
  "Transaction ty d pubkey sig now =
     \<lparr>tx_type = ty, data = d, sender_pubkey = pubkey, signature = sig, timestamp = now\<rparr>"

definition to_dict :: "'f transaction \<Rightarrow> 'f json" where
  "to_dict t =
     JObj [(''tx_type'', JStr (tx_type t)),
           (''data'', JObj (data t)),
           (''sender_pubkey'', sender_pubkey t),
           (''signature'', signature t),
           (''timestamp'', JFloat (timestamp t))]"

definition Transaction_compute_hash ::
  "('f \<Rightarrow> string) \<Rightarrow> (string \<Rightarrow> 256 word) \<Rightarrow> 'f transaction \<Rightarrow> string" where
  "Transaction_compute_hash float_repr sha256 t =
     hexdigest (sha256 (json_dumps float_repr (to_dict t)))"

subsection \<open>\<^verbatim>\<open>class Block\<close>\<close>

text \<open>
  The attribute \<^verbatim>\<open>hash\<close> is not set by \<^verbatim>\<open>Block.__init__\<close>: it is \<open>None\<close> until the
  chain assigns it.
\<close>

record 'f block =
  index :: int
  transactions :: "'f transaction list"
  block_timestamp :: 'f
  prev_hash :: string
  nonce :: int
  hash :: "string option"

definition Block :: "int \<Rightarrow> 'f transaction list \<Rightarrow> string \<Rightarrow> int \<Rightarrow> 'f \<Rightarrow> 'f block" where
  "Block i txs prev n now =
     \<lparr>index = i, transactions = txs, block_timestamp = now, prev_hash = prev, nonce = n,
      hash = None\<rparr>"

definition block_string :: "('f \<Rightarrow> string) \<Rightarrow> 'f block \<Rightarrow> string" where
  "block_string float_repr b =
     json_dumps float_repr
       (JObj [(''index'', JInt (index b)),
              (''transactions'', JList (map to_dict (transactions b))),
              (''timestamp'', JFloat (block_timestamp b)),
              (''prev_hash'', JStr (prev_hash b)),
              (''nonce'', JInt (nonce b))])"

definition Block_compute_hash ::
  "('f \<Rightarrow> string) \<Rightarrow> (string \<Rightarrow> 256 word) \<Rightarrow> 'f block \<Rightarrow> string" where
  "Block_compute_hash float_repr sha256 b = hexdigest (sha256 (block_string float_repr b))"

subsection \<open>\<^verbatim>\<open>class Blockchain\<close>\<close>

text \<open>A registry entry is the dict \<^verbatim>\<open>{"owner": owner, "status": status}\<close>.\<close>

record 'f ticket =
  owner :: "'f json"
  status :: string

record 'f blockchain =
  chain :: "'f block list"
  pending_transactions :: "'f transaction list"
  tickets :: "string \<rightharpoonup> 'f ticket"

datatype py_error = IndexError | AttributeError

definition difficulty :: nat where
  "difficulty = 2"

definition create_genesis_block ::
  "('f \<Rightarrow> string) \<Rightarrow> (string \<Rightarrow> 256 word) \<Rightarrow> 'f \<Rightarrow> 'f blockchain \<Rightarrow> 'f blockchain" where
  "create_genesis_block float_repr sha256 now s =
     (let genesis_block = Block 0 [] ''0'' 0 now;
          genesis_block = genesis_block\<lparr>hash := Some (Block_compute_hash float_repr sha256 genesis_block)\<rparr>
      in s\<lparr>chain := chain s @ [genesis_block]\<rparr>)"

definition Blockchain_init ::
  "('f \<Rightarrow> string) \<Rightarrow> (string \<Rightarrow> 256 word) \<Rightarrow> 'f \<Rightarrow> 'f blockchain" where
  "Blockchain_init float_repr sha256 now =
     (let s = \<lparr>chain = [], pending_transactions = [], tickets = Map.empty\<rparr>;
          s = create_genesis_block float_repr sha256 now s
      in s\<lparr>tickets := Map.empty\<rparr>)"

definition add_transaction :: "'f transaction \<Rightarrow> 'f blockchain \<Rightarrow> 'f blockchain" where
  "add_transaction tx s = s\<lparr>pending_transactions := pending_transactions s @ [tx]\<rparr>"

text \<open>
  The \<^verbatim>\<open>while\<close> loop of \<^verbatim>\<open>proof_of_work\<close> has no bound: it is a partial function, and
  \<open>None\<close> is the loop that never ends. The block is returned with the nonce the loop
  left in it.
\<close>

partial_function (option) proof_of_work_loop ::
  "('f \<Rightarrow> string) \<Rightarrow> (string \<Rightarrow> 256 word) \<Rightarrow> 'f block \<Rightarrow> string \<Rightarrow> ('f block \<times> string) option" where
  "proof_of_work_loop float_repr sha256 b computed_hash =
     (if \<not> startswith computed_hash (replicate difficulty CHR ''0'') then
        proof_of_work_loop float_repr sha256 (b\<lparr>nonce := nonce b + 1\<rparr>)
          (Block_compute_hash float_repr sha256 (b\<lparr>nonce := nonce b + 1\<rparr>))
      else Some (b, computed_hash))"

definition proof_of_work ::
  "('f \<Rightarrow> string) \<Rightarrow> (string \<Rightarrow> 256 word) \<Rightarrow> 'f block \<Rightarrow> ('f block \<times> string) option" where
  "proof_of_work float_repr sha256 b =
     proof_of_work_loop float_repr sha256 (b\<lparr>nonce := 0\<rparr>)
       (Block_compute_hash float_repr sha256 (b\<lparr>nonce := 0\<rparr>))"

text \<open>
  \<^verbatim>\<open>Blockchain.mine\<close> returns \<^verbatim>\<open>False\<close> or the new block; \<^verbatim>\<open>self.chain[-1]\<close> raises
  \<^verbatim>\<open>IndexError\<close> on an empty chain.
\<close>

datatype 'f mine_return = ReturnFalse | ReturnBlock "'f block"

definition mine ::
  "('f \<Rightarrow> string) \<Rightarrow> (string \<Rightarrow> 256 word) \<Rightarrow> 'f \<Rightarrow> 'f blockchain
     \<Rightarrow> (py_error + 'f mine_return \<times> 'f blockchain) option" where
  "mine float_repr sha256 now s =
     (if pending_transactions s = [] then Some (Inr (ReturnFalse, s))
      else if chain s = [] then Some (Inl IndexError)
      else
        (case proof_of_work float_repr sha256
                (Block (int (length (chain s))) (pending_transactions s)
                   (Block_compute_hash float_repr sha256 (last (chain s))) 0 now) of
           None \<Rightarrow> None
         | Some (new_block, proof) \<Rightarrow>
             (let new_block = new_block\<lparr>hash := Some proof\<rparr>
              in Some (Inr (ReturnBlock new_block,
                            s\<lparr>chain := chain s @ [new_block], pending_transactions := []\<rparr>)))))"

definition verify_ticket :: "'f blockchain \<Rightarrow> string \<Rightarrow> 'f ticket option" where
  "verify_ticket s ticket_id = tickets s ticket_id"

definition record_ticket :: "string \<Rightarrow> 'f json \<Rightarrow> string \<Rightarrow> 'f blockchain \<Rightarrow> 'f blockchain" where
  "record_ticket ticket_id own st s =
     s\<lparr>tickets := (tickets s)(ticket_id \<mapsto> \<lparr>owner = own, status = st\<rparr>)\<rparr>"

subsection \<open>The Flask routes\<close>

text \<open>A response is the body given to \<^verbatim>\<open>jsonify\<close> and the status code.\<close>

type_synonym 'f response = "'f json \<times> nat"

definition get_chain ::
  "('f \<Rightarrow> string) \<Rightarrow> (string \<Rightarrow> 256 word) \<Rightarrow> 'f blockchain \<Rightarrow> 'f response" where
  "get_chain float_repr sha256 s =
     (JList (map (\<lambda>b. JObj [(''index'', JInt (index b)),
                             (''transactions'', JList (map to_dict (transactions b))),
                             (''timestamp'', JFloat (block_timestamp b)),
                             (''prev_hash'', JStr (prev_hash b)),
                             (''hash'', JStr (Block_compute_hash float_repr sha256 b))])
                 (chain s)), 200)"

definition mine_route ::
  "('f \<Rightarrow> string) \<Rightarrow> (string \<Rightarrow> 256 word) \<Rightarrow> 'f \<Rightarrow> 'f blockchain
     \<Rightarrow> (py_error + 'f response \<times> 'f blockchain) option" where
  "mine_route float_repr sha256 now s =
     (case mine float_repr sha256 now s of
        None \<Rightarrow> None
      | Some (Inl e) \<Rightarrow> Some (Inl e)
      | Some (Inr (ReturnFalse, s')) \<Rightarrow>
          Some (Inr ((JObj [(''message'', JStr ''No transactions to mine'')], 200), s'))
      | Some (Inr (ReturnBlock b, s')) \<Rightarrow>
          (case hash b of
             None \<Rightarrow> Some (Inl AttributeError)
           | Some h \<Rightarrow>
               Some (Inr ((JObj [(''index'', JInt (index b)),
                                 (''transactions'', JList (map to_dict (transactions b))),
                                 (''hash'', JStr h)], 200), s'))))"

definition issue_ticket ::
  "'f \<Rightarrow> string \<Rightarrow> 'f json \<Rightarrow> 'f json \<Rightarrow> 'f json \<Rightarrow> 'f json \<Rightarrow> 'f json \<Rightarrow> 'f blockchain
     \<Rightarrow> 'f response \<times> 'f blockchain" where
  "issue_ticket now ticket_id event own price issuer_pubkey issuer_signature s =
     (let tx = Transaction ''issue''
                 [(''ticket_id'', JStr ticket_id), (''event'', event), (''owner'', own),
                  (''price'', price)]
                 issuer_pubkey issuer_signature now;
          s = add_transaction tx s;
          s = record_ticket ticket_id own ''valid'' s
      in ((JObj [(''message'', JStr ''Ticket issued''), (''ticket_id'', JStr ticket_id)], 201), s))"

text \<open>
  A registry entry is a dict of two items, so \<^verbatim>\<open>not ticket\<close> holds exactly when
  \<^verbatim>\<open>verify_ticket\<close> returned \<^verbatim>\<open>None\<close>.
\<close>

definition transfer_ticket ::
  "'f \<Rightarrow> string \<Rightarrow> 'f json \<Rightarrow> 'f json \<Rightarrow> 'f json \<Rightarrow> 'f blockchain \<Rightarrow> 'f response \<times> 'f blockchain" where
  "transfer_ticket now ticket_id new_owner pubkey sig s =
     (case verify_ticket s ticket_id of
        None \<Rightarrow> ((JObj [(''error'', JStr ''Invalid ticket'')], 400), s)
      | Some ticket \<Rightarrow>
          if status ticket \<noteq> ''valid'' then ((JObj [(''error'', JStr ''Invalid ticket'')], 400), s)
          else
            (let tx = Transaction ''transfer''
                        [(''ticket_id'', JStr ticket_id), (''new_owner'', new_owner)]
                        pubkey sig now;
                 s = add_transaction tx s;
                 s = record_ticket ticket_id new_owner ''valid'' s
             in ((JObj [(''message'', JStr ''Ticket transferred'')], 200), s)))"

definition redeem_ticket ::
  "'f \<Rightarrow> string \<Rightarrow> 'f json \<Rightarrow> 'f json \<Rightarrow> 'f blockchain \<Rightarrow> 'f response \<times> 'f blockchain" where
  "redeem_ticket now ticket_id pubkey sig s =
     (case verify_ticket s ticket_id of
        None \<Rightarrow> ((JObj [(''error'', JStr ''Invalid or already redeemed ticket'')], 400), s)
      | Some ticket \<Rightarrow>
          if status ticket \<noteq> ''valid''
          then ((JObj [(''error'', JStr ''Invalid or already redeemed ticket'')], 400), s)
          else
            (let tx = Transaction ''redeem'' [(''ticket_id'', JStr ticket_id)] pubkey sig now;
                 s = add_transaction tx s;
                 s = record_ticket ticket_id (owner ticket) ''redeemed'' s
             in ((JObj [(''message'', JStr ''Ticket redeemed'')], 200), s)))"

definition ticket_history :: "string \<Rightarrow> 'f blockchain \<Rightarrow> 'f response" where
  "ticket_history ticket_id s =
     (JList (map to_dict
               (filter (\<lambda>t. map_of (data t) ''ticket_id'' = Some (JStr ticket_id))
                  (concat (map transactions (chain s))))), 200)"

definition verify :: "string \<Rightarrow> 'f blockchain \<Rightarrow> 'f response" where
  "verify ticket_id s =
     (case verify_ticket s ticket_id of
        None \<Rightarrow> (JObj [(''valid'', JBool False), (''message'', JStr ''Ticket not found'')], 404)
      | Some ticket \<Rightarrow>
          (JObj [(''valid'', JBool (status ticket = ''valid'')),
                 (''ticket'', JObj [(''owner'', owner ticket), (''status'', JStr (status ticket))])],
           200))"

subsection \<open>Runs of the service\<close>

text \<open>
  A run is the list of the calls that change the state, each with what it read from the
  clock, the request and \<^verbatim>\<open>uuid4\<close>. \<^verbatim>\<open>uuid4\<close> draws an identifier that no ticket has yet; a
  call of \<^verbatim>\<open>/mine\<close> that raises or never returns is not a step.
\<close>

datatype 'f call =
    Issue 'f string "'f json" "'f json" "'f json" "'f json" "'f json"
  | Transfer 'f string "'f json" "'f json" "'f json"
  | Redeem 'f string "'f json" "'f json"
  | Mine 'f

fun call_step ::
  "('f \<Rightarrow> string) \<Rightarrow> (string \<Rightarrow> 256 word) \<Rightarrow> 'f call \<Rightarrow> 'f blockchain \<Rightarrow> 'f blockchain option" where
  "call_step float_repr sha256 (Issue now ticket_id event own price pubkey sig) s =
     (if tickets s ticket_id \<noteq> None then None
      else Some (snd (issue_ticket now ticket_id event own price pubkey sig s)))"
| "call_step float_repr sha256 (Transfer now ticket_id new_owner pubkey sig) s =
     Some (snd (transfer_ticket now ticket_id new_owner pubkey sig s))"
| "call_step float_repr sha256 (Redeem now ticket_id pubkey sig) s =
     Some (snd (redeem_ticket now ticket_id pubkey sig s))"
| "call_step float_repr sha256 (Mine now) s =
     (case mine_route float_repr sha256 now s of
        Some (Inr (resp, s')) \<Rightarrow> Some s'
      | _ \<Rightarrow> None)"

fun run_calls ::
  "('f \<Rightarrow> string) \<Rightarrow> (string \<Rightarrow> 256 word) \<Rightarrow> 'f call list \<Rightarrow> 'f blockchain \<Rightarrow> 'f blockchain option" where
  "run_calls float_repr sha256 [] s = Some s"
| "run_calls float_repr sha256 (c # cs) s =
     (case call_step float_repr sha256 c s of
        None \<Rightarrow> None
      | Some s' \<Rightarrow> run_calls float_repr sha256 cs s')"

text \<open>
  An invariant of runs: every transaction of the chain or of the pending buffer that
  carries a ticket identifier carries one that the registry knows.
\<close>

abbreviation ids_registered :: "'f blockchain \<Rightarrow> bool" where
  "ids_registered s \<equiv>
     \<forall>tx \<in> set (concat (map transactions (chain s))) \<union> set (pending_transactions s).
       \<forall>tid. map_of (data tx) ''ticket_id'' = Some (JStr tid) \<longrightarrow> tickets s tid \<noteq> None"

subsection \<open>A small instance\<close>

text \<open>
  An instance to run the model on: the clock counts whole seconds, printed as
  \<^verbatim>\<open>n.0\<close>, and the digest is the sum of the character codes modulo 256 in its first
  byte, every other byte zero.
\<close>

definition toy_repr :: "nat \<Rightarrow> string" where
  "toy_repr n = str_nat n @ ''.0''"

definition toy_sha256 :: "string \<Rightarrow> 256 word" where
  "toy_sha256 s = word_of_int (sum_list (map of_char s) mod 256 * 2 ^ 248)"

definition toy_init :: "nat blockchain" where
  "toy_init = Blockchain_init toy_repr toy_sha256 3"

definition toy_issued :: "nat blockchain" where
  "toy_issued =
     snd (issue_ticket 5 ''t1'' (JStr ''concert'') (JStr ''alice'') (JInt 10) JNull JNull toy_init)"

definition toy_transferred :: "nat blockchain" where
  "toy_transferred = snd (transfer_ticket 65 ''t1'' (JStr ''bob'') JNull JNull toy_issued)"

definition toy_redeemed :: "nat blockchain" where
  "toy_redeemed = snd (redeem_ticket 79 ''t1'' JNull JNull toy_transferred)"

definition toy_block1 :: "nat block" where
  "toy_block1 =
     \<lparr>index = 1, transactions = pending_transactions toy_issued, block_timestamp = 103,
      prev_hash = ''33'' @ replicate 62 CHR ''0'', nonce = 2,
      hash = Some (replicate 64 CHR ''0'')\<rparr>"

definition toy_mined :: "nat blockchain" where
  "toy_mined = toy_issued\<lparr>chain := chain toy_issued @ [toy_block1], pending_transactions := []\<rparr>"

definition toy_block2 :: "nat block" where
  "toy_block2 =
     \<lparr>index = 1, transactions = pending_transactions toy_redeemed, block_timestamp = 100,
      prev_hash = ''33'' @ replicate 62 CHR ''0'', nonce = 2,
      hash = Some (replicate 64 CHR ''0'')\<rparr>"

definition toy_ledger :: "nat blockchain" where
  "toy_ledger = toy_redeemed\<lparr>chain := chain toy_redeemed @ [toy_block2], pending_transactions := []\<rparr>"

definition toy_calls :: "nat call list" where
  "toy_calls =
     [Issue 5 ''t1'' (JStr ''concert'') (JStr ''alice'') (JInt 10) JNull JNull,
      Transfer 65 ''t1'' (JStr ''bob'') JNull JNull,
      Redeem 79 ''t1'' JNull JNull,
      Mine 100]"

definition toy_tx :: "nat transaction" where
  "toy_tx =
     Transaction ''issue''
       [(''ticket_id'', JStr ''t1''), (''event'', JStr ''concert''), (''owner'', JStr ''alice''),
        (''price'', JInt 10)] JNull JNull 5"

declare proof_of_work_loop.simps [code]

section \<open>Proof of work\<close>

lemma pow_loop_sound:
  assumes "proof_of_work_loop float_repr sha256 b h = Some r"
    and "h = Block_compute_hash float_repr sha256 b"
  shows "startswith (snd r) (replicate difficulty CHR ''0'') \<and>
     snd r = Block_compute_hash float_repr sha256 (fst r) \<and>
     nonce b \<le> nonce (fst r) \<and> fst r = b\<lparr>nonce := nonce (fst r)\<rparr>"
proof -
  have "h = Block_compute_hash float_repr sha256 b \<longrightarrow>
     startswith (snd r) (replicate difficulty CHR ''0'') \<and>
     snd r = Block_compute_hash float_repr sha256 (fst r) \<and>
     nonce b \<le> nonce (fst r) \<and> fst r = b\<lparr>nonce := nonce (fst r)\<rparr>"
  proof (rule proof_of_work_loop.raw_induct
      [where P = "\<lambda>fr sha b h r. h = Block_compute_hash fr sha b \<longrightarrow>
         startswith (snd r) (replicate difficulty CHR ''0'') \<and>
         snd r = Block_compute_hash fr sha (fst r) \<and>
         nonce b \<le> nonce (fst r) \<and> fst r = b\<lparr>nonce := nonce (fst r)\<rparr>", OF _ assms(1)],
      goal_cases)
    case (1 loop fr sha b computed_hash r)
    show ?case
    proof (cases "startswith computed_hash (replicate difficulty CHR ''0'')")
      case True
      with 1(2) show ?thesis by auto
    next
      case False
      with 1(2) have "loop fr sha (b\<lparr>nonce := nonce b + 1\<rparr>)
              (Block_compute_hash fr sha (b\<lparr>nonce := nonce b + 1\<rparr>)) = Some r"
        by simp
      from 1(1) [OF this] show ?thesis by auto
    qed
  qed
  with assms(2) show ?thesis by blast
qed

text \<open>The loop returns as soon as some nonce from the current one on gives a sealed digest.\<close>

lemma pow_loop_terminates:
  "startswith (Block_compute_hash float_repr sha256 (b\<lparr>nonce := nonce b + int k\<rparr>))
      (replicate difficulty CHR ''0'') \<Longrightarrow>
   \<exists>r. proof_of_work_loop float_repr sha256 b (Block_compute_hash float_repr sha256 b) = Some r"
proof (induction k arbitrary: b)
  case 0
  then show ?case by (subst proof_of_work_loop.simps) simp
next
  case (Suc k)
  let ?b = "b\<lparr>nonce := nonce b + 1\<rparr>"
  from Suc.prems
  have "startswith (Block_compute_hash float_repr sha256 (?b\<lparr>nonce := nonce ?b + int k\<rparr>))
      (replicate difficulty CHR ''0'')"
    by (simp add: algebra_simps)
  from Suc.IH [OF this]
  obtain r where "proof_of_work_loop float_repr sha256 ?b (Block_compute_hash float_repr sha256 ?b) = Some r"
    by auto
  then show ?case by (subst proof_of_work_loop.simps) simp
qed

lemma proof_of_work_sound:
  assumes "proof_of_work float_repr sha256 b = Some (b', h)"
  shows "startswith h (replicate difficulty CHR ''0'')"
    and "h = Block_compute_hash float_repr sha256 b'"
    and "b' = b\<lparr>nonce := nonce b'\<rparr>"
    and "0 \<le> nonce b'"
  using pow_loop_sound [OF assms [unfolded proof_of_work_def] refl] by (cases b; auto)+

lemma proof_of_work_terminates:
  assumes "startswith (Block_compute_hash float_repr sha256 (b\<lparr>nonce := int k\<rparr>))
      (replicate difficulty CHR ''0'')"
  shows "\<exists>r. proof_of_work float_repr sha256 b = Some r"
  unfolding proof_of_work_def
  by (rule pow_loop_terminates [where k = k]) (use assms in simp)

lemma Block_compute_hash_hash_update:
  "Block_compute_hash float_repr sha256 (b\<lparr>hash := h\<rparr>) = Block_compute_hash float_repr sha256 b"
  by (simp add: Block_compute_hash_def block_string_def)

lemma mine_ReturnBlock:
  assumes "mine float_repr sha256 now s = Some (Inr (ReturnBlock b, s'))"
  obtains nb h where
    "pending_transactions s \<noteq> []" "chain s \<noteq> []"
    "proof_of_work float_repr sha256
       (Block (int (length (chain s))) (pending_transactions s)
          (Block_compute_hash float_repr sha256 (last (chain s))) 0 now) = Some (nb, h)"
    "b = nb\<lparr>hash := Some h\<rparr>"
    "s' = s\<lparr>chain := chain s @ [b], pending_transactions := []\<rparr>"
  using assms by (auto simp: mine_def Let_def split: if_splits option.splits)

lemma toy_pending_issued:
  "pending_transactions toy_issued =
     [\<lparr>tx_type = ''issue'',
       data = [(''ticket_id'', JStr ''t1''), (''event'', JStr ''concert''),
               (''owner'', JStr ''alice''), (''price'', JInt 10)],
       sender_pubkey = JNull, signature = JNull, timestamp = 5\<rparr>]"
  by (simp add: toy_issued_def toy_init_def issue_ticket_def Blockchain_init_def
      create_genesis_block_def add_transaction_def record_ticket_def Transaction_def Let_def)

lemma toy_chain_issued:
  "chain toy_issued = [(Block 0 [] ''0'' 0 3)\<lparr>hash := Some (Block_compute_hash toy_repr toy_sha256 (Block 0 [] ''0'' 0 3))\<rparr>]"
  by (simp add: toy_issued_def toy_init_def issue_ticket_def Blockchain_init_def
      create_genesis_block_def add_transaction_def record_ticket_def Transaction_def Let_def)

lemma toy_proof_of_work:
  "proof_of_work toy_repr toy_sha256
     (Block 1 (pending_transactions toy_issued)
        (Block_compute_hash toy_repr toy_sha256 (last (chain toy_issued))) 0 103)
   = Some (toy_block1\<lparr>hash := None\<rparr>, replicate 64 CHR ''0'')"
  by code_simp

lemma toy_mine:
  "mine toy_repr toy_sha256 103 toy_issued = Some (Inr (ReturnBlock toy_block1, toy_mined))"
proof -
  have "toy_block1\<lparr>hash := None, hash := Some (replicate 64 CHR ''0'')\<rparr> = toy_block1"
    by (simp add: toy_block1_def)
  then show ?thesis
    using toy_proof_of_work
    by (simp add: mine_def toy_pending_issued toy_chain_issued toy_mined_def Let_def)
qed

text \<open>
  C1. Every block that \<open>mine\<close> returns carries a stored hash that starts with
  \<open>difficulty\<close> = 2 zero digits and equals \<open>compute_hash()\<close> of that block, at the nonce
  the loop stopped at; the same holds of what \<open>proof_of_work\<close> returns.
\<close>

theorem mine_seals_block:
  "(mine float_repr sha256 now s = Some (Inr (ReturnBlock b, s')) \<longrightarrow>
      (\<exists>h. hash b = Some h \<and> startswith h (replicate difficulty CHR ''0'') \<and>
           replicate difficulty CHR ''0'' = ''00'' \<and>
           h = Block_compute_hash float_repr sha256 b)) \<and>
   (proof_of_work float_repr sha256 blk = Some (blk', h') \<longrightarrow>
      startswith h' (replicate difficulty CHR ''0'') \<and>
      h' = Block_compute_hash float_repr sha256 blk' \<and>
      blk' = blk\<lparr>nonce := nonce blk'\<rparr> \<and> 0 \<le> nonce blk')"
proof -
  have zeros: "replicate difficulty CHR ''0'' = ''00''"
    by (simp add: difficulty_def numeral_2_eq_2)
  have mined: "\<exists>h. hash b = Some h \<and> startswith h (replicate difficulty CHR ''0'') \<and>
           replicate difficulty CHR ''0'' = ''00'' \<and> h = Block_compute_hash float_repr sha256 b"
    if m: "mine float_repr sha256 now s = Some (Inr (ReturnBlock b, s'))"
  proof -
    from m obtain nb h where
      pw: "proof_of_work float_repr sha256
             (Block (int (length (chain s))) (pending_transactions s)
                (Block_compute_hash float_repr sha256 (last (chain s))) 0 now) = Some (nb, h)"
      and b: "b = nb\<lparr>hash := Some h\<rparr>"
      by (rule mine_ReturnBlock)
    from proof_of_work_sound(1,2) [OF pw] b zeros show ?thesis
      by (simp add: Block_compute_hash_hash_update)
  qed
  from mined proof_of_work_sound show ?thesis by blast
qed

theorem mine_seals_block_witness:
  "mine toy_repr toy_sha256 103 toy_issued = Some (Inr (ReturnBlock toy_block1, toy_mined)) \<and>
   proof_of_work toy_repr toy_sha256
     (Block 1 (pending_transactions toy_issued)
        (Block_compute_hash toy_repr toy_sha256 (last (chain toy_issued))) 0 103)
     = Some (toy_block1\<lparr>hash := None\<rparr>, replicate 64 CHR ''0'') \<and>
   hash toy_block1 = Some (replicate 64 CHR ''0'') \<and>
   startswith (replicate 64 CHR ''0'') ''00'' \<and>
   replicate 64 CHR ''0'' = Block_compute_hash toy_repr toy_sha256 toy_block1 \<and>
   nonce toy_block1 = 2"
proof -
  note seal = mine_seals_block [of toy_repr toy_sha256 103 toy_issued toy_block1 toy_mined
      "Block 1 (pending_transactions toy_issued)
        (Block_compute_hash toy_repr toy_sha256 (last (chain toy_issued))) 0 103"
      "toy_block1\<lparr>hash := None\<rparr>" "replicate 64 CHR ''0''"]
  have stored: "hash toy_block1 = Some (replicate 64 CHR ''0'')"
    and n: "nonce toy_block1 = 2"
    by (simp_all add: toy_block1_def)
  from seal toy_mine obtain h where
    "hash toy_block1 = Some h" "startswith h (replicate difficulty CHR ''0'')"
    "replicate difficulty CHR ''0'' = ''00''" "h = Block_compute_hash toy_repr toy_sha256 toy_block1"
    by blast
  with stored have "startswith (replicate 64 CHR ''0'') ''00''"
    and "replicate 64 CHR ''0'' = Block_compute_hash toy_repr toy_sha256 toy_block1"
    by (metis option.inject)+
  with toy_mine toy_proof_of_work stored n show ?thesis by blast
qed

section \<open>Mining\<close>

lemma nonce_update_fields:
  assumes "b' = b\<lparr>nonce := n\<rparr>"
  shows "index b' = index b" "transactions b' = transactions b"
    "prev_hash b' = prev_hash b" "block_timestamp b' = block_timestamp b" "hash b' = hash b"
  using assms by simp_all

text \<open>
  C2. With a non-empty pending buffer, a call of \<open>mine\<close> that returns appends one block:
  its index is the old length of the chain, its transactions are the pending buffer in
  order, its \<open>prev_hash\<close> is \<open>compute_hash()\<close> of the old tip, recomputed; the pending
  buffer is empty afterwards.
\<close>

theorem mine_appends_block:
  assumes "pending_transactions s \<noteq> []"
    and "mine float_repr sha256 now s = Some (Inr (r, s'))"
  shows "\<exists>b. r = ReturnBlock b \<and>
           chain s' = chain s @ [b] \<and>
           length (chain s') = length (chain s) + 1 \<and>
           index b = int (length (chain s)) \<and>
           transactions b = pending_transactions s \<and>
           chain s \<noteq> [] \<and>
           prev_hash b = Block_compute_hash float_repr sha256 (last (chain s)) \<and>
           pending_transactions s' = [] \<and>
           tickets s' = tickets s"
proof -
  from assms obtain b where r: "r = ReturnBlock b"
    by (auto simp: mine_def Let_def split: if_splits option.splits)
  from assms(2) [unfolded r] obtain nb h where
    ne: "chain s \<noteq> []" and
    pw: "proof_of_work float_repr sha256
       (Block (int (length (chain s))) (pending_transactions s)
          (Block_compute_hash float_repr sha256 (last (chain s))) 0 now) = Some (nb, h)" and
    b: "b = nb\<lparr>hash := Some h\<rparr>" and
    s': "s' = s\<lparr>chain := chain s @ [b], pending_transactions := []\<rparr>"
    by (rule mine_ReturnBlock)
  from nonce_update_fields [OF proof_of_work_sound(3) [OF pw]] b
  have "index b = int (length (chain s))" "transactions b = pending_transactions s"
    "prev_hash b = Block_compute_hash float_repr sha256 (last (chain s))"
    by (simp_all add: Block_def)
  with r ne s' show ?thesis by simp
qed

theorem mine_appends_block_witness:
  "pending_transactions toy_issued \<noteq> [] \<and>
   mine toy_repr toy_sha256 103 toy_issued = Some (Inr (ReturnBlock toy_block1, toy_mined)) \<and>
   chain toy_mined = chain toy_issued @ [toy_block1] \<and>
   length (chain toy_mined) = 2 \<and>
   index toy_block1 = 1 \<and>
   transactions toy_block1 = pending_transactions toy_issued \<and>
   prev_hash toy_block1 = Block_compute_hash toy_repr toy_sha256 (last (chain toy_issued)) \<and>
   pending_transactions toy_mined = []"
proof -
  have ne: "pending_transactions toy_issued \<noteq> []"
    by (simp add: toy_pending_issued)
  from mine_appends_block [OF ne toy_mine]
  have "chain toy_mined = chain toy_issued @ [toy_block1]"
    "length (chain toy_mined) = length (chain toy_issued) + 1"
    "index toy_block1 = int (length (chain toy_issued))"
    "transactions toy_block1 = pending_transactions toy_issued"
    "prev_hash toy_block1 = Block_compute_hash toy_repr toy_sha256 (last (chain toy_issued))"
    "pending_transactions toy_mined = []"
    by auto
  with ne toy_mine show ?thesis by (simp add: toy_chain_issued)
qed

text \<open>
  C3. With an empty pending buffer \<open>mine\<close> returns \<^verbatim>\<open>False\<close> and the route answers
  "No transactions to mine" with status 200; nothing is raised and the state is the one
  before the call.
\<close>

theorem mine_nothing_to_mine:
  assumes "pending_transactions s = []"
  shows "mine float_repr sha256 now s = Some (Inr (ReturnFalse, s)) \<and>
         mine_route float_repr sha256 now s =
           Some (Inr ((JObj [(''message'', JStr ''No transactions to mine'')], 200), s))"
  using assms by (simp add: mine_def mine_route_def)

theorem mine_nothing_to_mine_witness:
  "pending_transactions toy_init = [] \<and>
   mine toy_repr toy_sha256 4 toy_init = Some (Inr (ReturnFalse, toy_init)) \<and>
   mine_route toy_repr toy_sha256 4 toy_init =
     Some (Inr ((JObj [(''message'', JStr ''No transactions to mine'')], 200), toy_init))"
proof -
  have e: "pending_transactions toy_init = []"
    by (simp add: toy_init_def Blockchain_init_def create_genesis_block_def Let_def)
  from mine_nothing_to_mine [OF e] e show ?thesis by simp
qed

text \<open>When some nonce seals the new block, \<open>mine\<close> returns it.\<close>

lemma mine_returns:
  assumes "pending_transactions s \<noteq> []" "chain s \<noteq> []"
    and "startswith (Block_compute_hash float_repr sha256
           ((Block (int (length (chain s))) (pending_transactions s)
              (Block_compute_hash float_repr sha256 (last (chain s))) 0 now)\<lparr>nonce := int k\<rparr>))
           (replicate difficulty CHR ''0'')"
  shows "\<exists>b s'. mine float_repr sha256 now s = Some (Inr (ReturnBlock b, s'))"
  using proof_of_work_terminates [OF assms(3)] assms(1,2)
  by (auto simp: mine_def Let_def)

section \<open>The ticket registry\<close>

lemma issue_ticket_eq:
  "issue_ticket now ticket_id event own price pubkey sig s =
     ((JObj [(''message'', JStr ''Ticket issued''), (''ticket_id'', JStr ticket_id)], 201),
      s\<lparr>pending_transactions := pending_transactions s @
           [Transaction ''issue''
              [(''ticket_id'', JStr ticket_id), (''event'', event), (''owner'', own),
               (''price'', price)] pubkey sig now],
        tickets := (tickets s)(ticket_id \<mapsto> \<lparr>owner = own, status = ''valid''\<rparr>)\<rparr>)"
  by (simp add: issue_ticket_def add_transaction_def record_ticket_def Let_def)

lemma transfer_ticket_rejected:
  assumes "tickets s ticket_id = None \<or> (\<exists>t. tickets s ticket_id = Some t \<and> status t \<noteq> ''valid'')"
  shows "transfer_ticket now ticket_id new_owner pubkey sig s =
           ((JObj [(''error'', JStr ''Invalid ticket'')], 400), s)"
  using assms by (auto simp: transfer_ticket_def verify_ticket_def)

lemma transfer_ticket_accepted:
  assumes "tickets s ticket_id = Some t" "status t = ''valid''"
  shows "transfer_ticket now ticket_id new_owner pubkey sig s =
           ((JObj [(''message'', JStr ''Ticket transferred'')], 200),
            s\<lparr>pending_transactions := pending_transactions s @
                 [Transaction ''transfer''
                    [(''ticket_id'', JStr ticket_id), (''new_owner'', new_owner)] pubkey sig now],
              tickets := (tickets s)(ticket_id \<mapsto> \<lparr>owner = new_owner, status = ''valid''\<rparr>)\<rparr>)"
  using assms
  by (simp add: transfer_ticket_def verify_ticket_def add_transaction_def record_ticket_def Let_def)

lemma redeem_ticket_rejected:
  assumes "tickets s ticket_id = None \<or> (\<exists>t. tickets s ticket_id = Some t \<and> status t \<noteq> ''valid'')"
  shows "redeem_ticket now ticket_id pubkey sig s =
           ((JObj [(''error'', JStr ''Invalid or already redeemed ticket'')], 400), s)"
  using assms by (auto simp: redeem_ticket_def verify_ticket_def)

lemma redeem_ticket_accepted:
  assumes "tickets s ticket_id = Some t" "status t = ''valid''"
  shows "redeem_ticket now ticket_id pubkey sig s =
           ((JObj [(''message'', JStr ''Ticket redeemed'')], 200),
            s\<lparr>pending_transactions := pending_transactions s @
                 [Transaction ''redeem'' [(''ticket_id'', JStr ticket_id)] pubkey sig now],
              tickets := (tickets s)(ticket_id \<mapsto> \<lparr>owner = owner t, status = ''redeemed''\<rparr>)\<rparr>)"
  using assms
  by (simp add: redeem_ticket_def verify_ticket_def add_transaction_def record_ticket_def Let_def)

lemma toy_tickets_init: "tickets toy_init = Map.empty"
  by (simp add: toy_init_def Blockchain_init_def create_genesis_block_def Let_def)

lemma toy_tickets_issued:
  "tickets toy_issued = [''t1'' \<mapsto> \<lparr>owner = JStr ''alice'', status = ''valid''\<rparr>]"
  by (simp add: toy_issued_def issue_ticket_eq toy_tickets_init)

lemma toy_tickets_transferred:
  "tickets toy_transferred = [''t1'' \<mapsto> \<lparr>owner = JStr ''bob'', status = ''valid''\<rparr>]"
  by (simp add: toy_transferred_def transfer_ticket_accepted [where t = "\<lparr>owner = JStr ''alice'', status = ''valid''\<rparr>"]
      toy_tickets_issued)

lemma toy_tickets_redeemed:
  "tickets toy_redeemed = [''t1'' \<mapsto> \<lparr>owner = JStr ''bob'', status = ''redeemed''\<rparr>]"
  by (simp add: toy_redeemed_def redeem_ticket_accepted [where t = "\<lparr>owner = JStr ''bob'', status = ''valid''\<rparr>"]
      toy_tickets_transferred)

text \<open>
  C4. \<open>transfer\<close> on an identifier with no registry entry, or with an entry whose status is
  not "valid", answers "Invalid ticket" (400) and leaves the state as it was; otherwise it
  appends one \<open>transfer\<close> transaction to the pending buffer and sets the entry to the new
  owner with status "valid", the chain untouched.
\<close>

theorem transfer_ticket_cases:
  "(tickets s ticket_id = None \<or> (\<exists>t. tickets s ticket_id = Some t \<and> status t \<noteq> ''valid'') \<longrightarrow>
      transfer_ticket now ticket_id new_owner pubkey sig s =
        ((JObj [(''error'', JStr ''Invalid ticket'')], 400), s)) \<and>
   ((\<exists>t. tickets s ticket_id = Some t \<and> status t = ''valid'') \<longrightarrow>
      transfer_ticket now ticket_id new_owner pubkey sig s =
        ((JObj [(''message'', JStr ''Ticket transferred'')], 200),
         s\<lparr>pending_transactions := pending_transactions s @
              [Transaction ''transfer''
                 [(''ticket_id'', JStr ticket_id), (''new_owner'', new_owner)] pubkey sig now],
           tickets := (tickets s)(ticket_id \<mapsto> \<lparr>owner = new_owner, status = ''valid''\<rparr>)\<rparr>))"
  using transfer_ticket_rejected [of s ticket_id now new_owner pubkey sig]
    transfer_ticket_accepted [of s ticket_id _ now new_owner pubkey sig]
  by blast

theorem transfer_ticket_cases_witness:
  "tickets toy_init ''t1'' = None \<and>
   transfer_ticket 4 ''t1'' (JStr ''bob'') JNull JNull toy_init =
     ((JObj [(''error'', JStr ''Invalid ticket'')], 400), toy_init) \<and>
   tickets toy_redeemed ''t1'' = Some \<lparr>owner = JStr ''bob'', status = ''redeemed''\<rparr> \<and>
   transfer_ticket 80 ''t1'' (JStr ''carol'') JNull JNull toy_redeemed =
     ((JObj [(''error'', JStr ''Invalid ticket'')], 400), toy_redeemed) \<and>
   tickets toy_issued ''t1'' = Some \<lparr>owner = JStr ''alice'', status = ''valid''\<rparr> \<and>
   transfer_ticket 65 ''t1'' (JStr ''bob'') JNull JNull toy_issued =
     ((JObj [(''message'', JStr ''Ticket transferred'')], 200),
      toy_issued\<lparr>pending_transactions := pending_transactions toy_issued @
           [Transaction ''transfer''
              [(''ticket_id'', JStr ''t1''), (''new_owner'', JStr ''bob'')] JNull JNull 65],
        tickets := (tickets toy_issued)(''t1'' \<mapsto> \<lparr>owner = JStr ''bob'', status = ''valid''\<rparr>)\<rparr>)"
  using transfer_ticket_cases [of toy_init "''t1''" 4 "JStr ''bob''" JNull JNull]
    transfer_ticket_cases [of toy_redeemed "''t1''" 80 "JStr ''carol''" JNull JNull]
    transfer_ticket_cases [of toy_issued "''t1''" 65 "JStr ''bob''" JNull JNull]
  by (simp add: toy_tickets_init toy_tickets_issued toy_tickets_redeemed)

text \<open>
  C5. \<open>redeem\<close> answers "Invalid or already redeemed ticket" (400) exactly when the
  identifier has no registry entry or an entry whose status is not "valid", and then
  leaves the state as it was; otherwise it appends one \<open>redeem\<close> transaction to the
  pending buffer and sets the status of the entry to "redeemed", its owner kept.
\<close>

theorem redeem_ticket_cases:
  "(fst (redeem_ticket now ticket_id pubkey sig s) =
      (JObj [(''error'', JStr ''Invalid or already redeemed ticket'')], 400) \<longleftrightarrow>
      tickets s ticket_id = None \<or> (\<exists>t. tickets s ticket_id = Some t \<and> status t \<noteq> ''valid'')) \<and>
   (fst (redeem_ticket now ticket_id pubkey sig s) =
      (JObj [(''error'', JStr ''Invalid or already redeemed ticket'')], 400) \<longrightarrow>
      snd (redeem_ticket now ticket_id pubkey sig s) = s) \<and>
   (\<forall>t. tickets s ticket_id = Some t \<and> status t = ''valid'' \<longrightarrow>
      redeem_ticket now ticket_id pubkey sig s =
        ((JObj [(''message'', JStr ''Ticket redeemed'')], 200),
         s\<lparr>pending_transactions := pending_transactions s @
              [Transaction ''redeem'' [(''ticket_id'', JStr ticket_id)] pubkey sig now],
           tickets := (tickets s)(ticket_id \<mapsto> \<lparr>owner = owner t, status = ''redeemed''\<rparr>)\<rparr>))"
proof (cases "tickets s ticket_id = None \<or> (\<exists>t. tickets s ticket_id = Some t \<and> status t \<noteq> ''valid'')")
  case True
  from redeem_ticket_rejected [OF True, of now pubkey sig] True show ?thesis by auto
next
  case False
  then obtain t where t: "tickets s ticket_id = Some t" "status t = ''valid''" by auto
  from redeem_ticket_accepted [OF t, of now pubkey sig] False t show ?thesis by auto
qed

theorem redeem_ticket_cases_witness:
  "tickets toy_redeemed ''t1'' = Some \<lparr>owner = JStr ''bob'', status = ''redeemed''\<rparr> \<and>
   redeem_ticket 80 ''t1'' JNull JNull toy_redeemed =
     ((JObj [(''error'', JStr ''Invalid or already redeemed ticket'')], 400), toy_redeemed) \<and>
   tickets toy_transferred ''t1'' = Some \<lparr>owner = JStr ''bob'', status = ''valid''\<rparr> \<and>
   redeem_ticket 79 ''t1'' JNull JNull toy_transferred =
     ((JObj [(''message'', JStr ''Ticket redeemed'')], 200),
      toy_transferred\<lparr>pending_transactions := pending_transactions toy_transferred @
           [Transaction ''redeem'' [(''ticket_id'', JStr ''t1'')] JNull JNull 79],
        tickets := (tickets toy_transferred)(''t1'' \<mapsto> \<lparr>owner = JStr ''bob'', status = ''redeemed''\<rparr>)\<rparr>)"
proof -
  have r: "tickets toy_redeemed ''t1'' = Some \<lparr>owner = JStr ''bob'', status = ''redeemed''\<rparr>"
    and v: "tickets toy_transferred ''t1'' = Some \<lparr>owner = JStr ''bob'', status = ''valid''\<rparr>"
    by (simp_all add: toy_tickets_redeemed toy_tickets_transferred)
  from redeem_ticket_cases [of 80 "''t1''" JNull JNull toy_redeemed] r
  have "redeem_ticket 80 ''t1'' JNull JNull toy_redeemed =
     ((JObj [(''error'', JStr ''Invalid or already redeemed ticket'')], 400), toy_redeemed)"
    by (simp add: prod_eq_iff)
  moreover from redeem_ticket_cases [of 79 "''t1''" JNull JNull toy_transferred] v
  have "redeem_ticket 79 ''t1'' JNull JNull toy_transferred =
     ((JObj [(''message'', JStr ''Ticket redeemed'')], 200),
      toy_transferred\<lparr>pending_transactions := pending_transactions toy_transferred @
           [Transaction ''redeem'' [(''ticket_id'', JStr ''t1'')] JNull JNull 79],
        tickets := (tickets toy_transferred)(''t1'' \<mapsto> \<lparr>owner = JStr ''bob'', status = ''redeemed''\<rparr>)\<rparr>)"
    by simp
  ultimately show ?thesis using r v by simp
qed

section \<open>Runs\<close>

lemma mine_tickets:
  assumes "mine float_repr sha256 now s = Some (Inr (r, s'))"
  shows "tickets s' = tickets s"
  using assms by (auto simp: mine_def Let_def split: if_splits option.splits)

lemma mine_route_mine:
  assumes "mine_route float_repr sha256 now s = Some (Inr (resp, s'))"
  shows "\<exists>r. mine float_repr sha256 now s = Some (Inr (r, s'))"
  using assms
  by (auto simp: mine_route_def split: option.splits sum.splits mine_return.splits)

lemma call_step_Mine:
  assumes "call_step float_repr sha256 (Mine now) s = Some s'"
  shows "\<exists>r. mine float_repr sha256 now s = Some (Inr (r, s'))"
proof -
  from assms obtain resp where "mine_route float_repr sha256 now s = Some (Inr (resp, s'))"
    by (auto split: option.splits sum.splits)
  then show ?thesis by (rule mine_route_mine)
qed

text \<open>What holds at the start of a run and is kept by every call holds at its end.\<close>

lemma run_calls_invariant:
  assumes "run_calls float_repr sha256 calls s = Some s'"
    and "P s"
    and "\<And>c s s'. P s \<Longrightarrow> call_step float_repr sha256 c s = Some s' \<Longrightarrow> P s'"
  shows "P s'"
  using assms(1,2)
proof (induction calls arbitrary: s)
  case Nil
  then show ?case by simp
next
  case (Cons c cs)
  from Cons.prems(1) obtain s1 where
    c: "call_step float_repr sha256 c s = Some s1" and
    cs: "run_calls float_repr sha256 cs s1 = Some s'"
    by (auto split: option.splits)
  from assms(3) [OF Cons.prems(2) c] have "P s1" .
  with cs show ?case by (rule Cons.IH)
qed

lemma call_step_keeps_redeemed:
  assumes "tickets s ticket_id = Some t" "status t = ''redeemed''"
    and "call_step float_repr sha256 c s = Some s'"
  shows "tickets s' ticket_id = Some t"
proof (cases c)
  case (Issue now tid event own price pubkey sig)
  with assms(3) have "tickets s tid = None"
    and "s' = snd (issue_ticket now tid event own price pubkey sig s)"
    by (auto split: if_splits)
  with assms(1) show ?thesis by (auto simp: issue_ticket_eq)
next
  case (Transfer now tid new_owner pubkey sig)
  with assms(3) have s': "s' = snd (transfer_ticket now tid new_owner pubkey sig s)" by simp
  show ?thesis
  proof (cases "tid = ticket_id")
    case True
    with assms(1,2) have "transfer_ticket now tid new_owner pubkey sig s =
           ((JObj [(''error'', JStr ''Invalid ticket'')], 400), s)"
      by (intro transfer_ticket_rejected) simp
    with s' assms(1) show ?thesis by simp
  next
    case False
    with s' assms(1) show ?thesis
      by (auto simp: transfer_ticket_def verify_ticket_def add_transaction_def record_ticket_def
          Let_def split: option.splits)
  qed
next
  case (Redeem now tid pubkey sig)
  with assms(3) have s': "s' = snd (redeem_ticket now tid pubkey sig s)" by simp
  show ?thesis
  proof (cases "tid = ticket_id")
    case True
    with assms(1,2) have "redeem_ticket now tid pubkey sig s =
           ((JObj [(''error'', JStr ''Invalid or already redeemed ticket'')], 400), s)"
      by (intro redeem_ticket_rejected) simp
    with s' assms(1) show ?thesis by simp
  next
    case False
    with s' assms(1) show ?thesis
      by (auto simp: redeem_ticket_def verify_ticket_def add_transaction_def record_ticket_def
          Let_def split: option.splits)
  qed
next
  case (Mine now)
  from call_step_Mine [OF assms(3) [unfolded Mine]]
  obtain r where "mine float_repr sha256 now s = Some (Inr (r, s'))" ..
  from mine_tickets [OF this] assms(1) show ?thesis by simp
qed

lemma toy_chain_redeemed: "chain toy_redeemed = chain toy_issued"
  by (simp add: toy_redeemed_def toy_transferred_def toy_tickets_issued toy_tickets_transferred
      transfer_ticket_accepted [where t = "\<lparr>owner = JStr ''alice'', status = ''valid''\<rparr>"]
      redeem_ticket_accepted [where t = "\<lparr>owner = JStr ''bob'', status = ''valid''\<rparr>"])

lemma toy_pending_redeemed:
  "pending_transactions toy_redeemed =
     [Transaction ''issue''
        [(''ticket_id'', JStr ''t1''), (''event'', JStr ''concert''), (''owner'', JStr ''alice''),
         (''price'', JInt 10)] JNull JNull 5,
      Transaction ''transfer'' [(''ticket_id'', JStr ''t1''), (''new_owner'', JStr ''bob'')]
        JNull JNull 65,
      Transaction ''redeem'' [(''ticket_id'', JStr ''t1'')] JNull JNull 79]"
  by (simp add: toy_redeemed_def toy_transferred_def toy_tickets_issued toy_tickets_transferred
      transfer_ticket_accepted [where t = "\<lparr>owner = JStr ''alice'', status = ''valid''\<rparr>"]
      redeem_ticket_accepted [where t = "\<lparr>owner = JStr ''bob'', status = ''valid''\<rparr>"]
      toy_pending_issued Transaction_def)

lemma toy_proof_of_work_redeemed:
  "proof_of_work toy_repr toy_sha256
     (Block 1 (pending_transactions toy_redeemed)
        (Block_compute_hash toy_repr toy_sha256 (last (chain toy_redeemed))) 0 100)
   = Some (toy_block2\<lparr>hash := None\<rparr>, replicate 64 CHR ''0'')"
  by code_simp

lemma toy_mine_redeemed:
  "mine toy_repr toy_sha256 100 toy_redeemed = Some (Inr (ReturnBlock toy_block2, toy_ledger))"
proof -
  have "toy_block2\<lparr>hash := None, hash := Some (replicate 64 CHR ''0'')\<rparr> = toy_block2"
    by (simp add: toy_block2_def)
  moreover have "pending_transactions toy_redeemed \<noteq> []"
    by (simp add: toy_pending_redeemed)
  moreover have "length (chain toy_redeemed) = 1" "chain toy_redeemed \<noteq> []"
    by (simp_all add: toy_chain_redeemed toy_chain_issued)
  ultimately show ?thesis
    using toy_proof_of_work_redeemed
    by (simp add: mine_def toy_ledger_def Let_def)
qed

lemma toy_hash_block2: "hash toy_block2 = Some (replicate 64 CHR ''0'')"
  by (simp add: toy_block2_def)

lemma toy_call_step_Mine:
  "call_step toy_repr toy_sha256 (Mine 100) toy_redeemed = Some toy_ledger"
  by (simp add: mine_route_def toy_mine_redeemed toy_hash_block2)

lemma toy_tickets_ledger:
  "tickets toy_ledger = [''t1'' \<mapsto> \<lparr>owner = JStr ''bob'', status = ''redeemed''\<rparr>]"
  by (simp add: toy_ledger_def toy_tickets_redeemed)

text \<open>
  C6. Once the registry entry of a ticket has status "redeemed", it stays the same entry
  through every run of issue, transfer, redeem and mine calls (an issue draws an
  identifier that no ticket has yet), and at the end of the run a transfer or a redeem
  of that ticket is rejected and changes nothing.
\<close>

theorem redeemed_is_terminal:
  assumes "tickets s ticket_id = Some t" and "status t = ''redeemed''"
    and "run_calls float_repr sha256 calls s = Some s'"
  shows "tickets s' ticket_id = Some t \<and>
         transfer_ticket now ticket_id new_owner pubkey sig s' =
           ((JObj [(''error'', JStr ''Invalid ticket'')], 400), s') \<and>
         redeem_ticket now' ticket_id pubkey' sig' s' =
           ((JObj [(''error'', JStr ''Invalid or already redeemed ticket'')], 400), s')"
proof -
  have kept: "tickets s' ticket_id = Some t"
    by (rule run_calls_invariant [OF assms(3), where P = "\<lambda>s. tickets s ticket_id = Some t"])
      (use assms(1,2) call_step_keeps_redeemed in blast)+
  with assms(2) have "tickets s' ticket_id = None \<or>
      (\<exists>t. tickets s' ticket_id = Some t \<and> status t \<noteq> ''valid'')"
    by simp
  from transfer_ticket_rejected [OF this] redeem_ticket_rejected [OF this] kept
  show ?thesis by blast
qed

theorem redeemed_is_terminal_witness:
  "tickets toy_redeemed ''t1'' = Some \<lparr>owner = JStr ''bob'', status = ''redeemed''\<rparr> \<and>
   run_calls toy_repr toy_sha256
     [Transfer 80 ''t1'' (JStr ''carol'') JNull JNull, Redeem 81 ''t1'' JNull JNull, Mine 100]
     toy_redeemed = Some toy_ledger \<and>
   tickets toy_ledger ''t1'' = Some \<lparr>owner = JStr ''bob'', status = ''redeemed''\<rparr> \<and>
   transfer_ticket 101 ''t1'' (JStr ''carol'') JNull JNull toy_ledger =
     ((JObj [(''error'', JStr ''Invalid ticket'')], 400), toy_ledger) \<and>
   redeem_ticket 102 ''t1'' JNull JNull toy_ledger =
     ((JObj [(''error'', JStr ''Invalid or already redeemed ticket'')], 400), toy_ledger)"
proof -
  have t: "tickets toy_redeemed ''t1'' = Some \<lparr>owner = JStr ''bob'', status = ''redeemed''\<rparr>"
    by (simp add: toy_tickets_redeemed)
  have st: "status \<lparr>owner = JStr ''bob'', status = ''redeemed''\<rparr> = ''redeemed''"
    by simp
  have rej: "tickets toy_redeemed ''t1'' = None \<or>
      (\<exists>t. tickets toy_redeemed ''t1'' = Some t \<and> status t \<noteq> ''valid'')"
    by (simp add: toy_tickets_redeemed)
  have run: "run_calls toy_repr toy_sha256
     [Transfer 80 ''t1'' (JStr ''carol'') JNull JNull, Redeem 81 ''t1'' JNull JNull, Mine 100]
     toy_redeemed = Some toy_ledger"
    by (simp add: transfer_ticket_rejected [OF rej] redeem_ticket_rejected [OF rej]
        toy_call_step_Mine del: call_step.simps(4))
  from redeemed_is_terminal [OF t st run, of 101 "JStr ''carol''" JNull JNull 102 JNull JNull] t run
  show ?thesis by simp
qed

section \<open>Blocks of a reachable chain\<close>

lemma chain_Blockchain_init:
  "chain (Blockchain_init float_repr sha256 now) =
     [(Block 0 [] ''0'' 0 now)\<lparr>hash := Some (Block_compute_hash float_repr sha256 (Block 0 [] ''0'' 0 now))\<rparr>]"
  by (simp add: Blockchain_init_def create_genesis_block_def Let_def)

lemma pending_Blockchain_init: "pending_transactions (Blockchain_init float_repr sha256 now) = []"
  by (simp add: Blockchain_init_def create_genesis_block_def Let_def)

lemma tickets_Blockchain_init: "tickets (Blockchain_init float_repr sha256 now) = Map.empty"
  by (simp add: Blockchain_init_def create_genesis_block_def Let_def)

lemma chain_transfer_ticket:
  "chain (snd (transfer_ticket now ticket_id new_owner pubkey sig s)) = chain s"
  by (simp add: transfer_ticket_def verify_ticket_def add_transaction_def record_ticket_def
      Let_def split: option.splits)

lemma chain_redeem_ticket:
  "chain (snd (redeem_ticket now ticket_id pubkey sig s)) = chain s"
  by (simp add: redeem_ticket_def verify_ticket_def add_transaction_def record_ticket_def
      Let_def split: option.splits)

lemma mine_cases:
  assumes "mine float_repr sha256 now s = Some (Inr (r, s'))"
  obtains (nothing) "pending_transactions s = []" "r = ReturnFalse" "s' = s"
  | (mined) b where "pending_transactions s \<noteq> []" "chain s \<noteq> []" "r = ReturnBlock b"
      "transactions b = pending_transactions s"
      "s' = s\<lparr>chain := chain s @ [b], pending_transactions := []\<rparr>"
proof (cases r)
  case ReturnFalse
  with assms have p: "pending_transactions s = []" and e: "s' = s"
    by (auto simp: mine_def Let_def split: if_splits option.splits)
  show ?thesis using p ReturnFalse e by (rule nothing)
next
  case (ReturnBlock b)
  from assms [unfolded ReturnBlock] obtain nb h where
    ne: "pending_transactions s \<noteq> []" "chain s \<noteq> []" and
    pw: "proof_of_work float_repr sha256
       (Block (int (length (chain s))) (pending_transactions s)
          (Block_compute_hash float_repr sha256 (last (chain s))) 0 now) = Some (nb, h)" and
    b: "b = nb\<lparr>hash := Some h\<rparr>" and
    s': "s' = s\<lparr>chain := chain s @ [b], pending_transactions := []\<rparr>"
    by (rule mine_ReturnBlock)
  from nonce_update_fields(2) [OF proof_of_work_sound(3) [OF pw]] b
  have "transactions b = pending_transactions s" by (simp add: Block_def)
  with ne ReturnBlock s' show ?thesis by (intro mined)
qed

lemma call_step_chain:
  assumes "call_step float_repr sha256 c s = Some s'"
  shows "chain s' = chain s \<or>
         (\<exists>b. chain s' = chain s @ [b] \<and> transactions b = pending_transactions s \<and>
              pending_transactions s \<noteq> [])"
proof (cases c)
  case (Issue now tid event own price pubkey sig)
  with assms show ?thesis by (auto simp: issue_ticket_eq split: if_splits)
next
  case (Transfer now tid new_owner pubkey sig)
  with assms show ?thesis by (auto simp: chain_transfer_ticket)
next
  case (Redeem now tid pubkey sig)
  with assms show ?thesis by (auto simp: chain_redeem_ticket)
next
  case (Mine now)
  from call_step_Mine [OF assms [unfolded Mine]]
  obtain r where "mine float_repr sha256 now s = Some (Inr (r, s'))" ..
  then show ?thesis by (cases rule: mine_cases) auto
qed

lemma toy_run: "run_calls toy_repr toy_sha256 toy_calls toy_init = Some toy_ledger"
proof -
  have 1: "snd (issue_ticket 5 ''t1'' (JStr ''concert'') (JStr ''alice'') (JInt 10) JNull JNull
             toy_init) = toy_issued"
    and 2: "snd (transfer_ticket 65 ''t1'' (JStr ''bob'') JNull JNull toy_issued) = toy_transferred"
    and 3: "snd (redeem_ticket 79 ''t1'' JNull JNull toy_transferred) = toy_redeemed"
    by (simp_all add: toy_issued_def toy_transferred_def toy_redeemed_def)
  show ?thesis
    by (simp add: toy_calls_def toy_tickets_init 1 2 3 toy_call_step_Mine del: call_step.simps(4))
qed

lemma toy_chain_ledger:
  "chain toy_ledger = chain toy_init @ [toy_block2]"
  by (simp add: toy_ledger_def toy_chain_redeemed toy_chain_issued toy_init_def chain_Blockchain_init)

text \<open>
  C10. In every state reached from the construction of the chain by issue, transfer,
  redeem and mine calls, the chain starts with the genesis block, which has no
  transaction, and every later block has at least one.
\<close>

theorem later_blocks_have_transactions:
  assumes "run_calls float_repr sha256 calls (Blockchain_init float_repr sha256 now) = Some s"
  shows "chain s \<noteq> [] \<and>
         hd (chain s) = hd (chain (Blockchain_init float_repr sha256 now)) \<and>
         transactions (hd (chain s)) = [] \<and>
         (\<forall>b \<in> set (tl (chain s)). transactions b \<noteq> [])"
proof (rule run_calls_invariant [OF assms])
  show "chain (Blockchain_init float_repr sha256 now) \<noteq> [] \<and>
        hd (chain (Blockchain_init float_repr sha256 now)) =
          hd (chain (Blockchain_init float_repr sha256 now)) \<and>
        transactions (hd (chain (Blockchain_init float_repr sha256 now))) = [] \<and>
        (\<forall>b \<in> set (tl (chain (Blockchain_init float_repr sha256 now))). transactions b \<noteq> [])"
    by (simp add: chain_Blockchain_init Block_def)
next
  fix c and s s' :: "'a blockchain"
  assume inv: "chain s \<noteq> [] \<and>
         hd (chain s) = hd (chain (Blockchain_init float_repr sha256 now)) \<and>
         transactions (hd (chain s)) = [] \<and>
         (\<forall>b \<in> set (tl (chain s)). transactions b \<noteq> [])"
    and step: "call_step float_repr sha256 c s = Some s'"
  from call_step_chain [OF step] inv
  show "chain s' \<noteq> [] \<and>
         hd (chain s') = hd (chain (Blockchain_init float_repr sha256 now)) \<and>
         transactions (hd (chain s')) = [] \<and>
         (\<forall>b \<in> set (tl (chain s')). transactions b \<noteq> [])"
    by auto
qed

theorem later_blocks_have_transactions_witness:
  "run_calls toy_repr toy_sha256 toy_calls (Blockchain_init toy_repr toy_sha256 3) = Some toy_ledger \<and>
   chain toy_ledger = chain (Blockchain_init toy_repr toy_sha256 3) @ [toy_block2] \<and>
   tl (chain toy_ledger) = [toy_block2] \<and>
   transactions (hd (chain toy_ledger)) = [] \<and>
   transactions toy_block2 \<noteq> []"
proof -
  have run: "run_calls toy_repr toy_sha256 toy_calls (Blockchain_init toy_repr toy_sha256 3) =
      Some toy_ledger"
    using toy_run by (simp add: toy_init_def)
  have ch: "chain toy_ledger = chain (Blockchain_init toy_repr toy_sha256 3) @ [toy_block2]"
    using toy_chain_ledger by (simp add: toy_init_def)
  then have tl: "tl (chain toy_ledger) = [toy_block2]"
    by (simp add: chain_Blockchain_init)
  note inv = later_blocks_have_transactions [OF run]
  from inv have "transactions (hd (chain toy_ledger)) = []" by blast
  moreover from inv tl have "transactions toy_block2 \<noteq> []" by simp
  ultimately show ?thesis using run ch tl by blast
qed

section \<open>The history of a ticket\<close>

lemma ids_registered_init: "ids_registered (Blockchain_init float_repr sha256 now)"
  by (simp add: chain_Blockchain_init pending_Blockchain_init Block_def)

lemma ids_registered_append:
  assumes "ids_registered s"
    and "chain s' = chain s" "pending_transactions s' = pending_transactions s @ [tx]"
    and "tickets s' = (tickets s)(tid \<mapsto> e)"
    and "map_of (data tx) ''ticket_id'' = Some (JStr tid)"
  shows "ids_registered s'"
proof (intro ballI allI impI)
  fix tx' tid'
  assume m: "tx' \<in> set (concat (map transactions (chain s'))) \<union> set (pending_transactions s')"
    and i: "map_of (data tx') ''ticket_id'' = Some (JStr tid')"
  show "tickets s' tid' \<noteq> None"
  proof (cases "tx' = tx")
    case True
    with i assms(5) have "tid' = tid" by simp
    with assms(4) show ?thesis by simp
  next
    case False
    with m assms(2,3) have "tx' \<in> set (concat (map transactions (chain s))) \<union> set (pending_transactions s)"
      by simp
    with assms(1) i have "tickets s tid' \<noteq> None" by blast
    with assms(4) show ?thesis by simp
  qed
qed


lemma ids_registered_step:
  assumes "call_step float_repr sha256 c s = Some s'" and "ids_registered s"
  shows "ids_registered s'"
proof (cases c)
  case (Issue now tid event own price pubkey sig)
  with assms(1) have s': "s' = snd (issue_ticket now tid event own price pubkey sig s)"
    by (simp split: if_splits)
  show ?thesis
    by (rule ids_registered_append [OF assms(2), where tid = tid and tx = "Transaction ''issue''
          [(''ticket_id'', JStr tid), (''event'', event), (''owner'', own), (''price'', price)]
          pubkey sig now"])
      (simp_all add: s' issue_ticket_eq Transaction_def)
next
  case (Transfer now tid new_owner pubkey sig)
  with assms(1) have s': "s' = snd (transfer_ticket now tid new_owner pubkey sig s)" by simp
  show ?thesis
  proof (cases "\<exists>t. tickets s tid = Some t \<and> status t = ''valid''")
    case True
    then obtain t where t: "tickets s tid = Some t" "status t = ''valid''" by blast
    show ?thesis
      by (rule ids_registered_append [OF assms(2), where tid = tid and tx = "Transaction ''transfer''
            [(''ticket_id'', JStr tid), (''new_owner'', new_owner)] pubkey sig now"])
        (simp_all add: s' transfer_ticket_accepted [OF t] Transaction_def)
  next
    case False
    then have "tickets s tid = None \<or> (\<exists>t. tickets s tid = Some t \<and> status t \<noteq> ''valid'')"
      by (cases "tickets s tid") auto
    from transfer_ticket_rejected [OF this] s' have "s' = s" by simp
    with assms(2) show ?thesis by simp
  qed
next
  case (Redeem now tid pubkey sig)
  with assms(1) have s': "s' = snd (redeem_ticket now tid pubkey sig s)" by simp
  show ?thesis
  proof (cases "\<exists>t. tickets s tid = Some t \<and> status t = ''valid''")
    case True
    then obtain t where t: "tickets s tid = Some t" "status t = ''valid''" by blast
    show ?thesis
      by (rule ids_registered_append [OF assms(2), where tid = tid and tx = "Transaction ''redeem''
            [(''ticket_id'', JStr tid)] pubkey sig now"])
        (simp_all add: s' redeem_ticket_accepted [OF t] Transaction_def)
  next
    case False
    then have "tickets s tid = None \<or> (\<exists>t. tickets s tid = Some t \<and> status t \<noteq> ''valid'')"
      by (cases "tickets s tid") auto
    from redeem_ticket_rejected [OF this] s' have "s' = s" by simp
    with assms(2) show ?thesis by simp
  qed
next
  case (Mine now)
  from call_step_Mine [OF assms(1) [unfolded Mine]]
  obtain r where "mine float_repr sha256 now s = Some (Inr (r, s'))" ..
  then show ?thesis
  proof (cases rule: mine_cases)
    case nothing
    with assms(2) show ?thesis by simp
  next
    case (mined b)
    have "set (concat (map transactions (chain s'))) \<union> set (pending_transactions s') =
        set (concat (map transactions (chain s))) \<union> set (pending_transactions s)"
      and "tickets s' = tickets s"
      by (simp_all add: mined)
    with assms(2) show ?thesis by simp
  qed
qed

lemma ids_registered_run:
  assumes "run_calls float_repr sha256 calls (Blockchain_init float_repr sha256 now) = Some s"
  shows "ids_registered s"
proof (rule run_calls_invariant [OF assms])
  show "ids_registered (Blockchain_init float_repr sha256 now)"
    by (rule ids_registered_init)
next
  fix c and s s' :: "'a blockchain"
  assume "ids_registered s" "call_step float_repr sha256 c s = Some s'"
  then show "ids_registered s'" by (rule ids_registered_step [rotated])
qed

text \<open>
  From a state where no transaction carries the identifier: issue, transfer, redeem,
  then a call of \<open>mine\<close> that returns.
\<close>

lemma history_of_sequence:
  fixes s :: "'f blockchain"
  assumes fresh: "tickets s tid = None"
    and unused: "\<forall>tx \<in> set (concat (map transactions (chain s))) \<union> set (pending_transactions s).
       map_of (data tx) ''ticket_id'' \<noteq> Some (JStr tid)"
    and run: "run_calls float_repr sha256
       [Issue n1 tid event own price pk1 sg1, Transfer n2 tid new_owner pk2 sg2,
        Redeem n3 tid pk3 sg3, Mine n4] s = Some s'"
  defines "t1 \<equiv> Transaction ''issue''
       [(''ticket_id'', JStr tid), (''event'', event), (''owner'', own), (''price'', price)]
       pk1 sg1 n1"
    and "t2 \<equiv> Transaction ''transfer'' [(''ticket_id'', JStr tid), (''new_owner'', new_owner)]
       pk2 sg2 n2"
    and "t3 \<equiv> Transaction ''redeem'' [(''ticket_id'', JStr tid)] pk3 sg3 n3"
  shows "\<exists>s3. run_calls float_repr sha256
       [Issue n1 tid event own price pk1 sg1, Transfer n2 tid new_owner pk2 sg2,
        Redeem n3 tid pk3 sg3] s = Some s3 \<and>
       pending_transactions s3 = pending_transactions s @ [t1, t2, t3] \<and>
       ticket_history tid s3 = (JList [], 200) \<and>
       ticket_history tid s' = (JList [to_dict t1, to_dict t2, to_dict t3], 200)"
proof -
  define s1 where "s1 = snd (issue_ticket n1 tid event own price pk1 sg1 s)"
  define s2 where "s2 = snd (transfer_ticket n2 tid new_owner pk2 sg2 s1)"
  define s3 where "s3 = snd (redeem_ticket n3 tid pk3 sg3 s2)"
  have s1: "s1 = s\<lparr>pending_transactions := pending_transactions s @ [t1],
        tickets := (tickets s)(tid \<mapsto> \<lparr>owner = own, status = ''valid''\<rparr>)\<rparr>"
    by (simp add: s1_def issue_ticket_eq t1_def)
  have s2: "s2 = s1\<lparr>pending_transactions := pending_transactions s1 @ [t2],
        tickets := (tickets s1)(tid \<mapsto> \<lparr>owner = new_owner, status = ''valid''\<rparr>)\<rparr>"
    unfolding s2_def t2_def
    by (subst transfer_ticket_accepted [where t = "\<lparr>owner = own, status = ''valid''\<rparr>"])
      (simp_all add: s1)
  have s3: "s3 = s2\<lparr>pending_transactions := pending_transactions s2 @ [t3],
        tickets := (tickets s2)(tid \<mapsto> \<lparr>owner = new_owner, status = ''redeemed''\<rparr>)\<rparr>"
    unfolding s3_def t3_def
    by (subst redeem_ticket_accepted [where t = "\<lparr>owner = new_owner, status = ''valid''\<rparr>"])
      (simp_all add: s2)
  have pending3: "pending_transactions s3 = pending_transactions s @ [t1, t2, t3]"
    and chain3: "chain s3 = chain s"
    by (simp_all add: s3 s2 s1)
  have run3: "run_calls float_repr sha256
       [Issue n1 tid event own price pk1 sg1, Transfer n2 tid new_owner pk2 sg2,
        Redeem n3 tid pk3 sg3] s = Some s3"
    by (simp add: fresh s1_def s2_def s3_def)
  from run have "call_step float_repr sha256 (Mine n4) s3 = Some s'"
    by (simp add: fresh s1_def s2_def s3_def del: call_step.simps(4) split: option.splits)
  from call_step_Mine [OF this]
  obtain r where "mine float_repr sha256 n4 s3 = Some (Inr (r, s'))" ..
  then obtain b where b: "transactions b = pending_transactions s3"
    and s': "s' = s3\<lparr>chain := chain s3 @ [b], pending_transactions := []\<rparr>"
    by (cases rule: mine_cases) (simp_all add: pending3)
  have old: "filter (\<lambda>t. map_of (data t) ''ticket_id'' = Some (JStr tid))
      (concat (map transactions (chain s))) = []"
    and old': "filter (\<lambda>t. map_of (data t) ''ticket_id'' = Some (JStr tid))
      (pending_transactions s) = []"
    using unused by (auto simp: filter_empty_conv)
  have new: "map_of (data t1) ''ticket_id'' = Some (JStr tid)"
    "map_of (data t2) ''ticket_id'' = Some (JStr tid)"
    "map_of (data t3) ''ticket_id'' = Some (JStr tid)"
    by (simp_all add: t1_def t2_def t3_def Transaction_def)
  have "ticket_history tid s3 = (JList [], 200)"
    by (simp add: ticket_history_def chain3 old)
  moreover have "ticket_history tid s' = (JList [to_dict t1, to_dict t2, to_dict t3], 200)"
    by (simp add: ticket_history_def s' chain3 b pending3 old old' new)
  ultimately show ?thesis using run3 pending3 by blast
qed


text \<open>
  C7, as the code has it. \<open>ticket_history\<close> reads the blocks of the chain, and a
  transaction enters a block only when \<open>mine\<close> is called. In a state reached from the
  construction of the chain, after issue, transfer and redeem of a new ticket the
  history of the ticket is empty; after a following call of \<open>mine\<close> that returns it is
  the three transactions, in the order issue, transfer, redeem.
\<close>

theorem ticket_history_after_mine:
  assumes "run_calls float_repr sha256 calls (Blockchain_init float_repr sha256 now) = Some s"
    and "run_calls float_repr sha256
       [Issue n1 tid event own price pk1 sg1, Transfer n2 tid new_owner pk2 sg2,
        Redeem n3 tid pk3 sg3, Mine n4] s = Some s'"
  shows "\<exists>s3. run_calls float_repr sha256
       [Issue n1 tid event own price pk1 sg1, Transfer n2 tid new_owner pk2 sg2,
        Redeem n3 tid pk3 sg3] s = Some s3 \<and>
       ticket_history tid s3 = (JList [], 200) \<and>
       ticket_history tid s' =
         (JList [to_dict (Transaction ''issue''
                   [(''ticket_id'', JStr tid), (''event'', event), (''owner'', own),
                    (''price'', price)] pk1 sg1 n1),
                 to_dict (Transaction ''transfer''
                   [(''ticket_id'', JStr tid), (''new_owner'', new_owner)] pk2 sg2 n2),
                 to_dict (Transaction ''redeem'' [(''ticket_id'', JStr tid)] pk3 sg3 n3)], 200)"
proof -
  from assms(2) have fresh: "tickets s tid = None"
    by (cases "tickets s tid") simp_all
  from ids_registered_run [OF assms(1)] fresh
  have "\<forall>tx \<in> set (concat (map transactions (chain s))) \<union> set (pending_transactions s).
       map_of (data tx) ''ticket_id'' \<noteq> Some (JStr tid)"
    by blast
  from history_of_sequence [OF fresh this assms(2)] show ?thesis by blast
qed

theorem ticket_history_after_mine_witness:
  "run_calls toy_repr toy_sha256 [] (Blockchain_init toy_repr toy_sha256 3) = Some toy_init \<and>
   run_calls toy_repr toy_sha256
     [Issue 5 ''t1'' (JStr ''concert'') (JStr ''alice'') (JInt 10) JNull JNull,
      Transfer 65 ''t1'' (JStr ''bob'') JNull JNull,
      Redeem 79 ''t1'' JNull JNull,
      Mine 100] toy_init = Some toy_ledger \<and>
   ticket_history ''t1'' toy_ledger =
     (JList [to_dict (Transaction ''issue''
               [(''ticket_id'', JStr ''t1''), (''event'', JStr ''concert''),
                (''owner'', JStr ''alice''), (''price'', JInt 10)] JNull JNull 5),
             to_dict (Transaction ''transfer''
               [(''ticket_id'', JStr ''t1''), (''new_owner'', JStr ''bob'')] JNull JNull 65),
             to_dict (Transaction ''redeem'' [(''ticket_id'', JStr ''t1'')] JNull JNull 79)], 200)"
proof -
  have init: "run_calls toy_repr toy_sha256 [] (Blockchain_init toy_repr toy_sha256 3) = Some toy_init"
    by (simp add: toy_init_def)
  have run: "run_calls toy_repr toy_sha256
     [Issue 5 ''t1'' (JStr ''concert'') (JStr ''alice'') (JInt 10) JNull JNull,
      Transfer 65 ''t1'' (JStr ''bob'') JNull JNull,
      Redeem 79 ''t1'' JNull JNull,
      Mine 100] toy_init = Some toy_ledger"
    using toy_run by (simp only: toy_calls_def)
  from ticket_history_after_mine [OF init run] init run show ?thesis by blast
qed

text \<open>
  C7, as stated, fails: on a new chain, after issue("concert", "alice", 10), transfer to
  "bob" and redeem, with no call of \<open>mine\<close>, the three transactions are in the pending
  buffer and the history of the ticket is the empty list.
\<close>

theorem ticket_history_before_mine_counterexample:
  "toy_redeemed =
     snd (redeem_ticket 79 ''t1'' JNull JNull
       (snd (transfer_ticket 65 ''t1'' (JStr ''bob'') JNull JNull
         (snd (issue_ticket 5 ''t1'' (JStr ''concert'') (JStr ''alice'') (JInt 10) JNull JNull
           (Blockchain_init toy_repr toy_sha256 3)))))) \<and>
   pending_transactions toy_redeemed =
     [Transaction ''issue''
        [(''ticket_id'', JStr ''t1''), (''event'', JStr ''concert''), (''owner'', JStr ''alice''),
         (''price'', JInt 10)] JNull JNull 5,
      Transaction ''transfer'' [(''ticket_id'', JStr ''t1''), (''new_owner'', JStr ''bob'')]
        JNull JNull 65,
      Transaction ''redeem'' [(''ticket_id'', JStr ''t1'')] JNull JNull 79] \<and>
   ticket_history ''t1'' toy_redeemed = (JList [], 200) \<and>
   ticket_history ''t1'' toy_redeemed \<noteq>
     (JList [to_dict (Transaction ''issue''
               [(''ticket_id'', JStr ''t1''), (''event'', JStr ''concert''),
                (''owner'', JStr ''alice''), (''price'', JInt 10)] JNull JNull 5),
             to_dict (Transaction ''transfer''
               [(''ticket_id'', JStr ''t1''), (''new_owner'', JStr ''bob'')] JNull JNull 65),
             to_dict (Transaction ''redeem'' [(''ticket_id'', JStr ''t1'')] JNull JNull 79)], 200)"
proof -
  have h: "ticket_history ''t1'' toy_redeemed = (JList [], 200)"
    by (simp add: ticket_history_def toy_chain_redeemed toy_chain_issued Block_def)
  have d: "toy_redeemed =
     snd (redeem_ticket 79 ''t1'' JNull JNull
       (snd (transfer_ticket 65 ''t1'' (JStr ''bob'') JNull JNull
         (snd (issue_ticket 5 ''t1'' (JStr ''concert'') (JStr ''alice'') (JInt 10) JNull JNull
           (Blockchain_init toy_repr toy_sha256 3))))))"
    by (simp only: toy_redeemed_def toy_transferred_def toy_issued_def toy_init_def)
  from h d toy_pending_redeemed show ?thesis by simp
qed

section \<open>Hashes\<close>

lemma length_hexdigest: "length (hexdigest w) = 64"
  by (simp add: hexdigest_def)

lemma hex_digit_lowercase: "hex_digit n \<in> set ''0123456789abcdef''"
proof -
  have "n mod 16 < length ''0123456789abcdef''" by simp
  then have "''0123456789abcdef'' ! (n mod 16) \<in> set ''0123456789abcdef''"
    by (rule nth_mem)
  then show ?thesis by (simp only: hex_digit_def)
qed

lemma hexdigest_lowercase: "set (hexdigest w) \<subseteq> set ''0123456789abcdef''"
  using hex_digit_lowercase by (auto simp: hexdigest_def simp del: set_simps list.set)

text \<open>With \<^verbatim>\<open>sort_keys=True\<close> the order of the items of a dict does not show.\<close>

lemma json_dumps_items_order:
  assumes "mset items' = mset items" and "distinct (map fst items)"
  shows "json_dumps float_repr (JObj items') = json_dumps float_repr (JObj items)"
proof -
  from assms(2) have "inj_on fst (set items)"
    by (simp add: distinct_map)
  with assms(1) have "sort_key fst items = sort_key fst items'"
    by (intro sort_key_eq_sort_key) simp_all
  then show ?thesis by simp
qed

lemma to_dict_keys:
  assumes "to_dict t = JObj items"
  shows "distinct (map fst items)"
  using assms by (auto simp: to_dict_def)

text \<open>
  C8. \<open>compute_hash()\<close> of a transaction is a function of its five fields: it is the
  digest of \<^verbatim>\<open>json.dumps(to_dict(), sort_keys=True)\<close>, 64 lowercase hexadecimal digits,
  and the digest of the record \<open>to_dict()\<close> returns is the same in whatever order the
  record holds its items.
\<close>

theorem Transaction_compute_hash_deterministic:
  "Transaction_compute_hash float_repr sha256 t =
     hexdigest (sha256 (json_dumps float_repr (to_dict t))) \<and>
   length (Transaction_compute_hash float_repr sha256 t) = 64 \<and>
   set (Transaction_compute_hash float_repr sha256 t) \<subseteq> set ''0123456789abcdef'' \<and>
   (\<forall>t'. tx_type t' = tx_type t \<and> data t' = data t \<and> sender_pubkey t' = sender_pubkey t \<and>
         signature t' = signature t \<and> timestamp t' = timestamp t \<longrightarrow>
         Transaction_compute_hash float_repr sha256 t' =
           Transaction_compute_hash float_repr sha256 t) \<and>
   (\<forall>items items'. to_dict t = JObj items \<and> mset items' = mset items \<longrightarrow>
      hexdigest (sha256 (json_dumps float_repr (JObj items'))) =
        Transaction_compute_hash float_repr sha256 t)"
proof (intro conjI allI impI)
  show "Transaction_compute_hash float_repr sha256 t =
     hexdigest (sha256 (json_dumps float_repr (to_dict t)))"
    by (simp only: Transaction_compute_hash_def)
  show "length (Transaction_compute_hash float_repr sha256 t) = 64"
    by (simp only: Transaction_compute_hash_def length_hexdigest)
  show "set (Transaction_compute_hash float_repr sha256 t) \<subseteq> set ''0123456789abcdef''"
    unfolding Transaction_compute_hash_def by (rule hexdigest_lowercase)
next
  fix t' :: "'a transaction"
  assume "tx_type t' = tx_type t \<and> data t' = data t \<and> sender_pubkey t' = sender_pubkey t \<and>
         signature t' = signature t \<and> timestamp t' = timestamp t"
  then have "to_dict t' = to_dict t" by (simp add: to_dict_def)
  then show "Transaction_compute_hash float_repr sha256 t' =
           Transaction_compute_hash float_repr sha256 t"
    by (simp only: Transaction_compute_hash_def)
next
  fix items items' :: "(string \<times> 'a json) list"
  assume a: "to_dict t = JObj items \<and> mset items' = mset items"
  then have "json_dumps float_repr (JObj items') = json_dumps float_repr (JObj items)"
    by (intro json_dumps_items_order to_dict_keys [of t]) simp_all
  with a show "hexdigest (sha256 (json_dumps float_repr (JObj items'))) =
        Transaction_compute_hash float_repr sha256 t"
    by (simp only: Transaction_compute_hash_def)
qed



lemma toy_tx_hash:
  "Transaction_compute_hash toy_repr toy_sha256 toy_tx = ''93'' @ replicate 62 CHR ''0''"
  by code_simp

theorem Transaction_compute_hash_deterministic_witness:
  "to_dict toy_tx =
     JObj [(''tx_type'', JStr ''issue''),
           (''data'', JObj [(''ticket_id'', JStr ''t1''), (''event'', JStr ''concert''),
                            (''owner'', JStr ''alice''), (''price'', JInt 10)]),
           (''sender_pubkey'', JNull), (''signature'', JNull), (''timestamp'', JFloat 5)] \<and>
   hexdigest (toy_sha256 (json_dumps toy_repr
     (JObj [(''timestamp'', JFloat 5), (''signature'', JNull), (''sender_pubkey'', JNull),
            (''data'', JObj [(''ticket_id'', JStr ''t1''), (''event'', JStr ''concert''),
                             (''owner'', JStr ''alice''), (''price'', JInt 10)]),
            (''tx_type'', JStr ''issue'')]))) =
     Transaction_compute_hash toy_repr toy_sha256 toy_tx \<and>
   Transaction_compute_hash toy_repr toy_sha256 toy_tx = ''93'' @ replicate 62 CHR ''0'' \<and>
   length (Transaction_compute_hash toy_repr toy_sha256 toy_tx) = 64"
proof -
  let ?data = "JObj [(''ticket_id'', JStr ''t1''), (''event'', JStr ''concert''),
                     (''owner'', JStr ''alice''), (''price'', JInt 10)] :: nat json"
  let ?items = "[(''tx_type'', JStr ''issue''), (''data'', ?data),
           (''sender_pubkey'', JNull), (''signature'', JNull), (''timestamp'', JFloat 5)]"
  let ?items' = "[(''timestamp'', JFloat 5), (''signature'', JNull), (''sender_pubkey'', JNull),
            (''data'', ?data), (''tx_type'', JStr ''issue'')]"
  have d: "to_dict toy_tx = JObj ?items"
    by (simp add: to_dict_def toy_tx_def Transaction_def)
  have m: "mset ?items' = mset ?items"
    by simp
  note det = Transaction_compute_hash_deterministic [of toy_repr toy_sha256 toy_tx]
  from det d m have "hexdigest (toy_sha256 (json_dumps toy_repr (JObj ?items'))) =
     Transaction_compute_hash toy_repr toy_sha256 toy_tx"
    by blast
  moreover from det have "length (Transaction_compute_hash toy_repr toy_sha256 toy_tx) = 64"
    by blast
  ultimately show ?thesis using d toy_tx_hash by blast
qed

section \<open>The genesis block\<close>

lemma hexdigest_ones: "hexdigest (- 1) = replicate 64 CHR ''f''"
  by code_simp

text \<open>
  C9. A new chain holds one block: index 0, no transaction, \<open>prev_hash\<close> "0", nonce 0,
  and as stored hash its own \<open>compute_hash()\<close>, whatever its digits: no proof of work
  runs on it, and with a digest of all ones the stored hash has no leading zero.
\<close>

theorem genesis_block:
  "(\<exists>g. chain (Blockchain_init float_repr sha256 now) = [g] \<and>
        index g = 0 \<and> transactions g = [] \<and> prev_hash g = ''0'' \<and> nonce g = 0 \<and>
        block_timestamp g = now \<and>
        hash g = Some (Block_compute_hash float_repr sha256 g)) \<and>
   pending_transactions (Blockchain_init float_repr sha256 now) = [] \<and>
   tickets (Blockchain_init float_repr sha256 now) = Map.empty \<and>
   (\<exists>g. chain (Blockchain_init float_repr (\<lambda>s. - 1) now) = [g] \<and>
        hash g = Some (replicate 64 CHR ''f'') \<and>
        \<not> startswith (replicate 64 CHR ''f'') (replicate difficulty CHR ''0''))"
proof -
  let ?g = "(Block 0 [] ''0'' 0 now)\<lparr>hash := Some (Block_compute_hash float_repr sha256 (Block 0 [] ''0'' 0 now))\<rparr>"
  have "chain (Blockchain_init float_repr sha256 now) = [?g] \<and>
        index ?g = 0 \<and> transactions ?g = [] \<and> prev_hash ?g = ''0'' \<and> nonce ?g = 0 \<and>
        block_timestamp ?g = now \<and>
        hash ?g = Some (Block_compute_hash float_repr sha256 ?g)"
    by (simp add: chain_Blockchain_init Block_compute_hash_hash_update) (simp add: Block_def)
  then have first: "\<exists>g. chain (Blockchain_init float_repr sha256 now) = [g] \<and>
        index g = 0 \<and> transactions g = [] \<and> prev_hash g = ''0'' \<and> nonce g = 0 \<and>
        block_timestamp g = now \<and>
        hash g = Some (Block_compute_hash float_repr sha256 g)"
    by blast
  let ?h = "(Block 0 [] ''0'' 0 now)\<lparr>hash := Some (replicate 64 CHR ''f'')\<rparr>"
  have "chain (Blockchain_init float_repr (\<lambda>s. - 1) now) = [?h]"
    by (simp add: chain_Blockchain_init Block_compute_hash_def hexdigest_ones)
  moreover have "hash ?h = Some (replicate 64 CHR ''f'')"
    by simp
  moreover have "\<not> startswith (replicate 64 CHR ''f'') (replicate difficulty CHR ''0'')"
    by (simp add: startswith_def difficulty_def numeral_2_eq_2)
  ultimately have last: "\<exists>g. chain (Blockchain_init float_repr (\<lambda>s. - 1) now) = [g] \<and>
        hash g = Some (replicate 64 CHR ''f'') \<and>
        \<not> startswith (replicate 64 CHR ''f'') (replicate difficulty CHR ''0'')"
    by blast
  from first last show ?thesis
    by (simp only: pending_Blockchain_init tickets_Blockchain_init simp_thms)
qed

end
